theory Spec2Isabelle
  imports Main
begin

section \<open>Credit ledger and redemption engine of OSINT LOOKUP\<close>

text \<open>
  A shallow embedding of the credit and redeem-code operations of \<^verbatim>\<open>src/database.py\<close>
  and of \<^verbatim>\<open>start_command\<close> in \<^verbatim>\<open>src/main.py\<close>.

  Every operation of \<^verbatim>\<open>database.py\<close> opens the SQLite database, runs a few SQL
  statements and commits. The three tables the operations touch are modelled as lists of
  rows; a statement is modelled by what it does to the rows:
  \<^item> \<^verbatim>\<open>SELECT ... WHERE key = ?\<close> followed by \<^verbatim>\<open>fetchone()\<close> is \<open>find\<close>;
  \<^item> \<^verbatim>\<open>UPDATE ... WHERE key = ?\<close> is \<open>map\<close> with a row function that changes the
    matching rows only (a key that matches no row changes nothing, as in SQL);
  \<^item> \<^verbatim>\<open>DELETE ... WHERE key = ?\<close> is \<open>filter\<close>;
  \<^item> \<^verbatim>\<open>INSERT\<close> appends a row; \<^verbatim>\<open>INSERT OR REPLACE\<close> first deletes the row
    with the same primary key; \<^verbatim>\<open>INSERT OR IGNORE\<close> does nothing when the
    \<^verbatim>\<open>UNIQUE\<close> constraint would be violated.

  Python integers are modelled as \<open>int\<close>. An SQLite \<^verbatim>\<open>INTEGER\<close> is a signed 64-bit
  value: binding a Python integer outside that range to a statement raises
  \<^verbatim>\<open>OverflowError\<close> before the statement runs, and a sum that leaves the range is
  computed in floating point and stored as a \<^verbatim>\<open>REAL\<close> (see \<open>sql_number\<close> below).
  The integers an operation binds come from the text of a message (a referrer, the
  account and amount of \<^verbatim>\<open>/gift\<close>, the amount and uses of a code) and can have any
  size, except the id of the sender of a message, which is a Telegram id: a positive
  64-bit value.

  A \<^verbatim>\<open>datetime\<close> is modelled as the number of microseconds since \<^verbatim>\<open>datetime.min\<close>;
  the text a date column holds (\<^verbatim>\<open>isoformat()\<close>, read back by \<^verbatim>\<open>fromisoformat\<close>)
  is modelled by that number. The clock (\<^verbatim>\<open>datetime.now()\<close>, \<^verbatim>\<open>time.time()\<close>) is an
  argument of every operation that reads it. The database itself is assumed to work:
  the \<^verbatim>\<open>except\<close> branch of \<^verbatim>\<open>redeem_code_db\<close>, taken when a statement fails, is
  not modelled.
\<close>

subsection \<open>Numbers of the database\<close>

text \<open>The range of an SQLite \<^verbatim>\<open>INTEGER\<close>, and of the integers that can be bound.\<close>

definition int64 :: "int \<Rightarrow> bool" where
  "int64 n = (- 9223372036854775808 \<le> n \<and> n \<le> 9223372036854775807)"

text \<open>An optional integer parameter: \<^verbatim>\<open>None\<close> binds as \<^verbatim>\<open>NULL\<close>.\<close>

definition int64_opt :: "int option \<Rightarrow> bool" where
  "int64_opt v = (case v of None \<Rightarrow> True | Some n \<Rightarrow> int64 n)"

text \<open>The exception of a parameter that cannot be bound.\<close>

datatype py_error = OverflowError

text \<open>
  What the columns \<^verbatim>\<open>credits\<close> and \<^verbatim>\<open>total_earned\<close> hold. \<open>Integer n\<close> is the
  integer \<open>n\<close>. \<open>Inexact\<close> is a value that came out of floating-point arithmetic: the
  \<^verbatim>\<open>REAL\<close> that SQLite stores when a sum of integers leaves the 64-bit range (the
  double nearest to the sum, which is not the sum), and whatever later sums make of it.
  The model does not follow such a value: every sum on it is \<open>Inexact\<close> again.
\<close>

datatype sql_number = Integer int | Inexact

text \<open>\<^verbatim>\<open>column + ?\<close> in an \<^verbatim>\<open>UPDATE\<close>, for a parameter that was bound.\<close>

fun sql_add :: "sql_number \<Rightarrow> int \<Rightarrow> sql_number" where
  "sql_add (Integer a) b = (if int64 (a + b) then Integer (a + b) else Inexact)"
| "sql_add Inexact b = Inexact"

subsection \<open>Tables\<close>

text \<open>Table \<^verbatim>\<open>users\<close> (\<^verbatim>\<open>init_db\<close>, lines 42--53).\<close>

record user_row =
  user_id :: int
  username :: "string option"
  credits :: sql_number
  joined_date :: string
  referrer_id :: "int option"
  is_banned :: int
  total_earned :: sql_number
  last_active :: string

text \<open>Table \<^verbatim>\<open>redeem_codes\<close> (lines 66--76); \<open>is_active\<close> holds 1 as \<open>True\<close>, 0 as
  \<open>False\<close>. \<open>current_uses\<close> grows by one per redemption from 0, so it leaves the 64-bit
  range only after 9223372036854775807 redemptions of one code: it is modelled as an
  integer.\<close>

record code_row =
  code :: string
  amount :: int
  max_uses :: int
  current_uses :: int
  expiry_minutes :: "int option"
  created_date :: int
  is_active :: bool

text \<open>Table \<^verbatim>\<open>redeem_logs\<close> (lines 79--87), with \<^verbatim>\<open>UNIQUE(user_id, code)\<close>. The
  autoincremented \<^verbatim>\<open>id\<close> column is never read and is left out.\<close>

record log_row =
  log_user_id :: int
  log_code :: string
  claimed_date :: int

record database =
  users :: "user_row list"
  redeem_codes :: "code_row list"
  redeem_logs :: "log_row list"

text \<open>The database after \<^verbatim>\<open>init_db\<close> on a fresh file: every table empty.\<close>

definition init_db :: database where
  "init_db = \<lparr>users = [], redeem_codes = [], redeem_logs = []\<rparr>"

subsection \<open>Account operations\<close>

text \<open>\<^verbatim>\<open>get_user\<close> (lines 114--117), for an id that can be bound: in the paths modelled
  here it is called with the id of the sender of a message.\<close>

definition get_user :: "database \<Rightarrow> int \<Rightarrow> user_row option" where
  "get_user db uid = find (\<lambda>u. user_id u = uid) (users db)"

text \<open>
  \<^verbatim>\<open>add_user\<close> (lines 119--132). The \<^verbatim>\<open>SELECT\<close> binds the id; when the user exists
  the function returns at once; otherwise the \<^verbatim>\<open>INSERT\<close> binds the id and the
  referrer and adds a row with 5 credits and nothing earned. \<open>current_time\<close> is
  \<^verbatim>\<open>str(time.time())\<close>. A parameter that cannot be bound raises and no row is added.
\<close>

definition add_user ::
  "database \<Rightarrow> int \<Rightarrow> string option \<Rightarrow> int option \<Rightarrow> string \<Rightarrow> py_error + database" where
  "add_user db uid uname referrer current_time =
     (if \<not> int64 uid then Inl OverflowError
      else case find (\<lambda>u. user_id u = uid) (users db) of
        Some _ \<Rightarrow> Inr db
      | None \<Rightarrow>
          if \<not> int64_opt referrer then Inl OverflowError
          else Inr (db\<lparr>users := users db @
            [\<lparr>user_id = uid, username = uname, credits = Integer 5, joined_date = current_time,
              referrer_id = referrer, is_banned = 0, total_earned = Integer 0,
              last_active = current_time\<rparr>]\<rparr>))"

text \<open>\<^verbatim>\<open>update_credits\<close> (lines 134--141): both statements bind the amount and the
  id.\<close>

definition update_credits :: "database \<Rightarrow> int \<Rightarrow> int \<Rightarrow> py_error + database" where
  "update_credits db uid amt =
     (if \<not> int64 amt \<or> \<not> int64 uid then Inl OverflowError
      else if amt > 0 then
        Inr (db\<lparr>users := map (\<lambda>u. if user_id u = uid
                               then u\<lparr>credits := sql_add (credits u) amt,
                                      total_earned := sql_add (total_earned u) amt\<rparr>
                               else u) (users db)\<rparr>)
      else
        Inr (db\<lparr>users := map (\<lambda>u. if user_id u = uid
                               then u\<lparr>credits := sql_add (credits u) amt\<rparr>
                               else u) (users db)\<rparr>))"

text \<open>\<^verbatim>\<open>update_last_active\<close> (lines 513--517); \<open>now_iso\<close> is
  \<^verbatim>\<open>datetime.now().isoformat()\<close>. The id is the sender's.\<close>

definition update_last_active :: "database \<Rightarrow> int \<Rightarrow> string \<Rightarrow> database" where
  "update_last_active db uid now_iso =
     db\<lparr>users := map (\<lambda>u. if user_id u = uid then u\<lparr>last_active := now_iso\<rparr> else u)
                       (users db)\<rparr>"

text \<open>\<^verbatim>\<open>is_user_banned\<close> (\<^verbatim>\<open>main.py\<close>, lines 116--120).\<close>

definition is_user_banned :: "database \<Rightarrow> int \<Rightarrow> bool" where
  "is_user_banned db uid =
     (case get_user db uid of Some u \<Rightarrow> is_banned u = 1 | None \<Rightarrow> False)"

text \<open>
  \<^verbatim>\<open>start_command\<close> (\<^verbatim>\<open>main.py\<close>, lines 173--224). \<open>uid\<close> is the id of the sender.
  \<open>ref_arg\<close> is the integer that \<^verbatim>\<open>int(args.split("_")[1])\<close> yields: \<open>None\<close> when there
  are no arguments, when they do not start with \<^verbatim>\<open>ref_\<close>, or when \<^verbatim>\<open>int\<close> raises
  (the \<^verbatim>\<open>except: pass\<close>). The test \<^verbatim>\<open>if referrer_id:\<close> is false for \<^verbatim>\<open>None\<close> and
  for 0. \<open>member\<close> is what \<^verbatim>\<open>check_membership\<close> returns, which depends on the
  administrators and on Telegram and writes no table. Messages sent change no table.
  An exception of \<^verbatim>\<open>add_user\<close> is not caught and ends the handler before anything is
  written; \<^verbatim>\<open>update_credits\<close> cannot raise after it, since the same referrer was
  bound by the \<^verbatim>\<open>INSERT\<close>.
\<close>

definition start_command ::
  "database \<Rightarrow> int \<Rightarrow> string option \<Rightarrow> int option \<Rightarrow> string \<Rightarrow> bool \<Rightarrow> string \<Rightarrow> py_error + database" where
  "start_command db uid uname ref_arg current_time member now_iso =
     (if is_user_banned db uid then Inr db
      else
        (let registered =
           (case get_user db uid of
              Some _ \<Rightarrow> Inr db
            | None \<Rightarrow>
                (let referrer = (case ref_arg of
                                   None \<Rightarrow> None
                                 | Some r \<Rightarrow> if r = uid then None else Some r)
                 in case add_user db uid uname referrer current_time of
                      Inl e \<Rightarrow> Inl e
                    | Inr db1 \<Rightarrow>
                        (case referrer of
                           None \<Rightarrow> Inr db1
                         | Some r \<Rightarrow> if r \<noteq> 0 then update_credits db1 r 3 else Inr db1)))
         in case registered of
              Inl e \<Rightarrow> Inl e
            | Inr db2 \<Rightarrow> if \<not> member then Inr db2
                         else Inr (update_last_active db2 uid now_iso)))"

subsection \<open>Redeem codes\<close>

text \<open>\<^verbatim>\<open>create_redeem_code\<close> (lines 148--158): the statement binds the amount, the
  uses and the expiry; \<^verbatim>\<open>INSERT OR REPLACE\<close> removes the row with the same code; the
  new row names no \<^verbatim>\<open>current_uses\<close>, so the column takes its default 0.\<close>

definition create_redeem_code ::
  "database \<Rightarrow> string \<Rightarrow> int \<Rightarrow> int \<Rightarrow> int option \<Rightarrow> int \<Rightarrow> py_error + database" where
  "create_redeem_code db c amt uses expiry now =
     (if \<not> int64 amt \<or> \<not> int64 uses \<or> \<not> int64_opt expiry then Inl OverflowError
      else Inr (db\<lparr>redeem_codes := filter (\<lambda>r. code r \<noteq> c) (redeem_codes db) @
        [\<lparr>code = c, amount = amt, max_uses = uses, current_uses = 0,
          expiry_minutes = expiry, created_date = now, is_active = True\<rparr>]\<rparr>))"

text \<open>\<^verbatim>\<open>deactivate_code\<close> (lines 324--327) and \<^verbatim>\<open>delete_redeem_code\<close> (lines 319--322)
  bind a string only.\<close>

definition deactivate_code :: "database \<Rightarrow> string \<Rightarrow> database" where
  "deactivate_code db c =
     db\<lparr>redeem_codes := map (\<lambda>r. if code r = c then r\<lparr>is_active := False\<rparr> else r)
                              (redeem_codes db)\<rparr>"

definition delete_redeem_code :: "database \<Rightarrow> string \<Rightarrow> database" where
  "delete_redeem_code db c = db\<lparr>redeem_codes := filter (\<lambda>r. code r \<noteq> c) (redeem_codes db)\<rparr>"

text \<open>\<^verbatim>\<open>delete_user\<close> (lines 394--402): three statements, in the order of the source,
  each binding the id; the first raises when it cannot.\<close>

definition delete_user :: "database \<Rightarrow> int \<Rightarrow> py_error + database" where
  "delete_user db uid =
     (if \<not> int64 uid then Inl OverflowError
      else
        (let db1 = db\<lparr>users := filter (\<lambda>u. user_id u \<noteq> uid) (users db)\<rparr>;
             db2 = db1\<lparr>redeem_logs := filter (\<lambda>l. log_user_id l \<noteq> uid) (redeem_logs db1)\<rparr>
         in Inr (db2\<lparr>users := map (\<lambda>u. if referrer_id u = Some uid then u\<lparr>referrer_id := None\<rparr> else u)
                               (users db2)\<rparr>)))"

subsection \<open>Dates\<close>

text \<open>
  \<^verbatim>\<open>datetime.max - datetime.min\<close> in microseconds (3652058 days, 86399 seconds and
  999999 microseconds).
\<close>

definition datetime_max :: int where
  "datetime_max = 315537897599999999"

text \<open>
  \<^verbatim>\<open>created_dt + timedelta(minutes=expiry_minutes)\<close> (lines 194--195). \<open>None\<close> stands
  for the \<^verbatim>\<open>OverflowError\<close> Python raises when the \<^verbatim>\<open>timedelta\<close> has more than
  999999999 days in magnitude, or when the sum is no \<^verbatim>\<open>datetime\<close> (before year 1 or
  after year 9999).
\<close>

definition expiry_dt :: "int \<Rightarrow> int \<Rightarrow> int option" where
  "expiry_dt created_dt minutes =
     (if minutes div 1440 < - 999999999 \<or> 999999999 < minutes div 1440 then None
      else (let t = created_dt + minutes * 60000000
            in if t < 0 \<or> datetime_max < t then None else Some t))"

subsection \<open>Redeeming a code\<close>

text \<open>
  What \<^verbatim>\<open>redeem_code_db\<close> returns: one of the strings \<^verbatim>\<open>"already_claimed"\<close>,
  \<^verbatim>\<open>"invalid"\<close>, \<^verbatim>\<open>"inactive"\<close>, \<^verbatim>\<open>"limit_reached"\<close>, \<^verbatim>\<open>"expired"\<close>, or the amount
  credited; \<open>Overflow_error\<close> is the exception of the date arithmetic, which the function
  does not catch. The account is the sender of the message (\<^verbatim>\<open>main.py\<close>, line 505).
\<close>

datatype redeem_result =
    Already_claimed
  | Invalid
  | Inactive
  | Limit_reached
  | Expired
  | Success int
  | Overflow_error

definition get_code :: "database \<Rightarrow> string \<Rightarrow> code_row option" where
  "get_code db c = find (\<lambda>r. code r = c) (redeem_codes db)"

definition get_log :: "database \<Rightarrow> int \<Rightarrow> string \<Rightarrow> log_row option" where
  "get_log db uid c = find (\<lambda>l. log_user_id l = uid \<and> log_code l = c) (redeem_logs db)"

text \<open>
  The checks of \<^verbatim>\<open>redeem_code_db\<close> (lines 164--197), which only read: \<open>Inl\<close> is an
  early return, \<open>Inr\<close> the amount read from the code's row when every check passes.
\<close>

definition redeem_checks :: "database \<Rightarrow> int \<Rightarrow> int \<Rightarrow> string \<Rightarrow> redeem_result + int" where
  "redeem_checks db now uid c =
     (case get_log db uid c of
        Some _ \<Rightarrow> Inl Already_claimed
      | None \<Rightarrow>
          (case get_code db c of
             None \<Rightarrow> Inl Invalid
           | Some data \<Rightarrow>
               if \<not> is_active data then Inl Inactive
               else if current_uses data \<ge> max_uses data then Inl Limit_reached
               else (case expiry_minutes data of
                       None \<Rightarrow> Inr (amount data)
                     | Some m \<Rightarrow>
                         if m > 0 then
                           (case expiry_dt (created_date data) m of
                              None \<Rightarrow> Inl Overflow_error
                            | Some e \<Rightarrow> if now > e then Inl Expired else Inr (amount data))
                         else Inr (amount data))))"

text \<open>
  The transaction of \<^verbatim>\<open>redeem_code_db\<close> (lines 199--225): four statements between
  \<^verbatim>\<open>BEGIN TRANSACTION\<close> and \<^verbatim>\<open>COMMIT\<close>. None of them tests the use limit or the
  result of the \<^verbatim>\<open>INSERT OR IGNORE\<close>. The amount was read from the table, so it can be
  bound.
\<close>

definition redeem_process :: "database \<Rightarrow> int \<Rightarrow> int \<Rightarrow> string \<Rightarrow> int \<Rightarrow> database" where
  "redeem_process db now uid c amt =
     (let db1 = db\<lparr>redeem_codes :=
                    map (\<lambda>r. if code r = c then r\<lparr>current_uses := current_uses r + 1\<rparr> else r)
                        (redeem_codes db)\<rparr>;
          db2 = db1\<lparr>users :=
                    map (\<lambda>u. if user_id u = uid then u\<lparr>credits := sql_add (credits u) amt\<rparr> else u)
                        (users db1)\<rparr>;
          db3 = db2\<lparr>users :=
                    map (\<lambda>u. if user_id u = uid
                             then u\<lparr>total_earned := sql_add (total_earned u) amt\<rparr> else u)
                        (users db2)\<rparr>
      in case get_log db3 uid c of
           Some _ \<Rightarrow> db3
         | None \<Rightarrow> db3\<lparr>redeem_logs := redeem_logs db3 @
                        [\<lparr>log_user_id = uid, log_code = c, claimed_date = now\<rparr>]\<rparr>)"

text \<open>\<^verbatim>\<open>redeem_code_db\<close> (lines 160--229) run without interruption: the checks, then the
  transaction on the same database.\<close>

definition redeem_code_db :: "database \<Rightarrow> int \<Rightarrow> int \<Rightarrow> string \<Rightarrow> database \<times> redeem_result" where
  "redeem_code_db db now uid c =
     (case redeem_checks db now uid c of
        Inl r \<Rightarrow> (db, r)
      | Inr amt \<Rightarrow> (redeem_process db now uid c amt, Success amt))"

text \<open>A caller that redeems the same code for the same account once at each of the
  given times, each call after the one before has returned, collecting the results.\<close>

fun redeem_many :: "database \<Rightarrow> int \<Rightarrow> string \<Rightarrow> int list \<Rightarrow> database \<times> redeem_result list" where
  "redeem_many db uid c [] = (db, [])"
| "redeem_many db uid c (t # ts) =
     (case redeem_code_db db t uid c of
        (db1, r) \<Rightarrow> (case redeem_many db1 uid c ts of (db2, rs) \<Rightarrow> (db2, r # rs)))"

subsection \<open>Sequences of operations\<close>

text \<open>
  The operations of \<^verbatim>\<open>database.py\<close> that write to the three tables, as the bot's
  handlers call them one after the other; each is paired with the clock reading
  (\<^verbatim>\<open>datetime.now()\<close>) of its call. An operation that raises has written nothing.
\<close>

datatype operation =
    Add_user int "string option" "int option" string
  | Update_credits int int
  | Create_redeem_code string int int "int option"
  | Redeem_code_db int string
  | Deactivate_code string
  | Delete_redeem_code string
  | Delete_user int

text \<open>The database an operation leaves: the one it returns, or the one it was given when
  it raises.\<close>

definition committed :: "database \<Rightarrow> py_error + database \<Rightarrow> database" where
  "committed db res = (case res of Inl _ \<Rightarrow> db | Inr db1 \<Rightarrow> db1)"

fun exec :: "database \<Rightarrow> int \<times> operation \<Rightarrow> database" where
  "exec db (now, Add_user uid uname referrer current_time) =
     committed db (add_user db uid uname referrer current_time)"
| "exec db (now, Update_credits uid amt) = committed db (update_credits db uid amt)"
| "exec db (now, Create_redeem_code c amt uses expiry) =
     committed db (create_redeem_code db c amt uses expiry now)"
| "exec db (now, Redeem_code_db uid c) = fst (redeem_code_db db now uid c)"
| "exec db (now, Deactivate_code c) = deactivate_code db c"
| "exec db (now, Delete_redeem_code c) = delete_redeem_code db c"
| "exec db (now, Delete_user uid) = committed db (delete_user db uid)"

definition run :: "database \<Rightarrow> (int \<times> operation) list \<Rightarrow> database" where
  "run db ops = foldl exec db ops"

text \<open>The operations that write a row of \<^verbatim>\<open>redeem_codes\<close> for the code \<open>c\<close> anew.\<close>

fun creates :: "string \<Rightarrow> int \<times> operation \<Rightarrow> bool" where
  "creates c (now, Create_redeem_code c' amt uses expiry) = (c' = c)"
| "creates c (now, _) = False"

text \<open>The operations that write to the balance of the account \<open>uid\<close> or delete the
  account.\<close>

fun touches :: "int \<Rightarrow> int \<times> operation \<Rightarrow> bool" where
  "touches uid (now, Update_credits uid' amt) = (uid' = uid)"
| "touches uid (now, Redeem_code_db uid' c) = (uid' = uid)"
| "touches uid (now, Delete_user uid') = (uid' = uid)"
| "touches uid (now, _) = False"

subsection \<open>Use counts and the claim log\<close>

text \<open>The number of rows of \<^verbatim>\<open>redeem_logs\<close> that name the code.\<close>

definition claims_of :: "database \<Rightarrow> string \<Rightarrow> int" where
  "claims_of db c = int (length (filter (\<lambda>l. log_code l = c) (redeem_logs db)))"

text \<open>Every row of \<^verbatim>\<open>redeem_codes\<close> counts exactly the claims logged for its code.\<close>

definition uses_match_logs :: "database \<Rightarrow> bool" where
  "uses_match_logs db = list_all (\<lambda>r. current_uses r = claims_of db (code r)) (redeem_codes db)"

text \<open>The account has no row in \<^verbatim>\<open>redeem_logs\<close> for a code that has a row in
  \<^verbatim>\<open>redeem_codes\<close>.\<close>

definition no_live_claim :: "database \<Rightarrow> int \<Rightarrow> bool" where
  "no_live_claim db uid = list_all (\<lambda>r. get_log db uid (code r) = None) (redeem_codes db)"

text \<open>The code has a row whose \<^verbatim>\<open>is_active\<close> is 0.\<close>

definition deactivated :: "database \<Rightarrow> string \<Rightarrow> bool" where
  "deactivated db c = (case get_code db c of Some r \<Rightarrow> \<not> is_active r | None \<Rightarrow> False)"

text \<open>The code has no row, or a row whose \<^verbatim>\<open>is_active\<close> is 0.\<close>

definition retired :: "database \<Rightarrow> string \<Rightarrow> bool" where
  "retired db c = (case get_code db c of None \<Rightarrow> True | Some r \<Rightarrow> \<not> is_active r)"

subsection \<open>The ledger of one account\<close>

text \<open>
  What happens while an account exists, as far as its balance goes: a redemption attempt
  of the account at a time, the referral bonus (\<^verbatim>\<open>update_credits(referrer_id, 3)\<close>,
  \<^verbatim>\<open>main.py\<close> line 195), an adjustment by an administrator
  (\<^verbatim>\<open>update_credits(uid, amt)\<close> and \<^verbatim>\<open>update_credits(uid, -amt)\<close>, \<^verbatim>\<open>main.py\<close> lines
  1313 and 1332), and any operation made for somebody or something else.
\<close>

datatype ledger_event =
    Redemption int string
  | Referral_grant
  | Admin_adjustment int
  | Elsewhere "int \<times> operation"

text \<open>An event applied to the account \<open>uid\<close>: the new database and the delta the event
  applied to the balance: 0 for a redemption attempt that does not succeed, for an
  adjustment that raises and for an operation made elsewhere.\<close>

fun apply_event :: "database \<Rightarrow> int \<Rightarrow> ledger_event \<Rightarrow> database \<times> int" where
  "apply_event db uid (Redemption now c) =
     (case redeem_code_db db now uid c of
        (db1, Success amt) \<Rightarrow> (db1, amt)
      | (db1, _) \<Rightarrow> (db1, 0))"
| "apply_event db uid Referral_grant =
     (case update_credits db uid 3 of Inr db1 \<Rightarrow> (db1, 3) | Inl _ \<Rightarrow> (db, 0))"
| "apply_event db uid (Admin_adjustment amt) =
     (case update_credits db uid amt of Inr db1 \<Rightarrow> (db1, amt) | Inl _ \<Rightarrow> (db, 0))"
| "apply_event db uid (Elsewhere op) = (exec db op, 0)"

text \<open>The events replayed in order; the log pairs each event with its delta.\<close>

fun replay :: "database \<Rightarrow> int \<Rightarrow> ledger_event list \<Rightarrow> database \<times> (ledger_event \<times> int) list" where
  "replay db uid [] = (db, [])"
| "replay db uid (e # es) =
     (case apply_event db uid e of
        (db1, d) \<Rightarrow> (case replay db1 uid es of (db2, log) \<Rightarrow> (db2, (e, d) # log)))"

definition deltas :: "(ledger_event \<times> int) list \<Rightarrow> int list" where
  "deltas log = map snd log"

definition positive_deltas :: "int list \<Rightarrow> int" where
  "positive_deltas ds = sum_list (filter (\<lambda>d. 0 < d) ds)"

definition negative_deltas :: "int list \<Rightarrow> int" where
  "negative_deltas ds = sum_list (filter (\<lambda>d. d < 0) ds)"

text \<open>The balances an account goes through from \<open>b\<close> under the deltas.\<close>

fun balances :: "int \<Rightarrow> int list \<Rightarrow> int list" where
  "balances b [] = []"
| "balances b (d # ds) = (b + d) # balances (b + d) ds"

text \<open>An operation made elsewhere leaves the balance of the account alone.\<close>

fun foreign :: "int \<Rightarrow> ledger_event \<Rightarrow> bool" where
  "foreign uid (Elsewhere op) = (\<not> touches uid op)"
| "foreign uid _ = True"

text \<open>No redemption of the log granted a negative amount.\<close>

fun grant_not_negative :: "ledger_event \<times> int \<Rightarrow> bool" where
  "grant_not_negative (Redemption now c, d) = (0 \<le> d)"
| "grant_not_negative (_, d) = True"

subsection \<open>Two calls of \<^verbatim>\<open>redeem_code_db\<close> at once\<close>

text \<open>
  The handlers are coroutines: a call of \<^verbatim>\<open>redeem_code_db\<close> can be suspended at each
  \<^verbatim>\<open>await\<close>, and the checks (lines 164--197) are made before
  \<^verbatim>\<open>BEGIN TRANSACTION\<close> (line 201). This is one schedule of two calls: both calls make
  their checks on the same database, then the first runs its transaction, then the
  second. A call whose checks return early runs no transaction.
\<close>

definition redeem_code_db_interleaved ::
  "database \<Rightarrow> int \<Rightarrow> int \<times> string \<Rightarrow> int \<times> string \<Rightarrow> database \<times> redeem_result \<times> redeem_result" where
  "redeem_code_db_interleaved db now call1 call2 =
     (let checks1 = redeem_checks db now (fst call1) (snd call1);
          checks2 = redeem_checks db now (fst call2) (snd call2);
          (db1, result1) = (case checks1 of
                              Inl r \<Rightarrow> (db, r)
                            | Inr amt \<Rightarrow> (redeem_process db now (fst call1) (snd call1) amt, Success amt));
          (db2, result2) = (case checks2 of
                              Inl r \<Rightarrow> (db1, r)
                            | Inr amt \<Rightarrow> (redeem_process db1 now (fst call2) (snd call2) amt, Success amt))
      in (db2, result1, result2))"

subsection \<open>A scenario\<close>

text \<open>
  Two accounts and the code \<^verbatim>\<open>FLASH100\<close>: 100 credits, one use, expiry after 15 minutes,
  created at time 0. In \<open>flash_claimed_db\<close> account 1 has redeemed the code after one
  minute.
\<close>

definition flash_db :: database where
  "flash_db =
     \<lparr>users =
        [\<lparr>user_id = 1, username = Some ''ann'', credits = Integer 5, joined_date = ''0.0'',
           referrer_id = None, is_banned = 0, total_earned = Integer 0, last_active = ''0.0''\<rparr>,
         \<lparr>user_id = 2, username = Some ''bob'', credits = Integer 5, joined_date = ''0.0'',
           referrer_id = None, is_banned = 0, total_earned = Integer 0, last_active = ''0.0''\<rparr>],
      redeem_codes =
        [\<lparr>code = ''FLASH100'', amount = 100, max_uses = 1, current_uses = 0,
           expiry_minutes = Some 15, created_date = 0, is_active = True\<rparr>],
      redeem_logs = []\<rparr>"

definition flash_claimed_db :: database where
  "flash_claimed_db = fst (redeem_code_db flash_db 60000000 1 ''FLASH100'')"

subsection \<open>Duration parser\<close>









section \<open>Lemmas\<close>

subsection \<open>Rows found after a statement\<close>

lemma find_map_key:
  assumes "\<And>x. key (f x) = key x"
  shows "find (\<lambda>x. key x = k) (map f xs) = map_option f (find (\<lambda>x. key x = k) xs)"
  using assms by (induction xs) auto

lemma find_append:
  "find P (xs @ ys) = (case find P xs of Some x \<Rightarrow> Some x | None \<Rightarrow> find P ys)"
  by (induction xs) auto

lemma find_Some_key: "find (\<lambda>x. key x = k) xs = Some y \<Longrightarrow> key y = k"
  by (induction xs) (auto split: if_splits)

lemma find_Some_set: "find P xs = Some x \<Longrightarrow> x \<in> set xs"
  by (induction xs) (auto split: if_splits)

lemma find_filter_key:
  "find (\<lambda>x. key x = k) (filter (\<lambda>x. key x \<noteq> k') xs)
     = (if k = k' then None else find (\<lambda>x. key x = k) xs)"
  by (induction xs) auto

lemma get_user_id: "get_user db uid = Some u \<Longrightarrow> user_id u = uid"
  unfolding get_user_def by (rule find_Some_key)

subsection \<open>The scenario, evaluated\<close>

lemmas operation_defs =
  add_user_def update_credits_def create_redeem_code_def deactivate_code_def
  delete_redeem_code_def delete_user_def redeem_code_db_def redeem_checks_def
  redeem_process_def get_user_def get_code_def get_log_def expiry_dt_def datetime_max_def
  committed_def int64_def int64_opt_def update_last_active_def

lemma flash_redeem_eq:
  "redeem_code_db flash_db 60000000 1 ''FLASH100'' =
     (\<lparr>users =
        [\<lparr>user_id = 1, username = Some ''ann'', credits = Integer 105, joined_date = ''0.0'',
           referrer_id = None, is_banned = 0, total_earned = Integer 100, last_active = ''0.0''\<rparr>,
         \<lparr>user_id = 2, username = Some ''bob'', credits = Integer 5, joined_date = ''0.0'',
           referrer_id = None, is_banned = 0, total_earned = Integer 0, last_active = ''0.0''\<rparr>],
      redeem_codes =
        [\<lparr>code = ''FLASH100'', amount = 100, max_uses = 1, current_uses = 1,
           expiry_minutes = Some 15, created_date = 0, is_active = True\<rparr>],
      redeem_logs = [\<lparr>log_user_id = 1, log_code = ''FLASH100'', claimed_date = 60000000\<rparr>]\<rparr>,
      Success 100)"
  unfolding flash_db_def
  by (simp add: operation_defs)

lemma flash_claimed_db_eq:
  "flash_claimed_db =
     \<lparr>users =
        [\<lparr>user_id = 1, username = Some ''ann'', credits = Integer 105, joined_date = ''0.0'',
           referrer_id = None, is_banned = 0, total_earned = Integer 100, last_active = ''0.0''\<rparr>,
         \<lparr>user_id = 2, username = Some ''bob'', credits = Integer 5, joined_date = ''0.0'',
           referrer_id = None, is_banned = 0, total_earned = Integer 0, last_active = ''0.0''\<rparr>],
      redeem_codes =
        [\<lparr>code = ''FLASH100'', amount = 100, max_uses = 1, current_uses = 1,
           expiry_minutes = Some 15, created_date = 0, is_active = True\<rparr>],
      redeem_logs = [\<lparr>log_user_id = 1, log_code = ''FLASH100'', claimed_date = 60000000\<rparr>]\<rparr>"
  unfolding flash_claimed_db_def flash_redeem_eq by simp

subsection \<open>Accounts\<close>

lemma update_credits_raises:
  "\<not> int64 amt \<or> \<not> int64 uid \<Longrightarrow> update_credits db uid amt = Inl OverflowError"
  by (auto simp: update_credits_def)

lemma update_credits_returns:
  assumes "int64 amt" and "int64 uid"
  shows "update_credits db uid amt =
     Inr (db\<lparr>users := map (\<lambda>u. if user_id u = uid
            then (if amt > 0
                  then u\<lparr>credits := sql_add (credits u) amt,
                         total_earned := sql_add (total_earned u) amt\<rparr>
                  else u\<lparr>credits := sql_add (credits u) amt\<rparr>)
            else u) (users db)\<rparr>)"
  using assms by (simp add: update_credits_def cong: if_cong)

lemma update_credits_tables:
  assumes "update_credits db uid amt = Inr db1"
  shows "redeem_codes db1 = redeem_codes db" and "redeem_logs db1 = redeem_logs db"
  using assms by (auto simp: update_credits_def split: if_splits)

lemma get_user_update_credits:
  assumes "update_credits db uid amt = Inr db1"
  shows "get_user db1 v =
     map_option (\<lambda>u. if user_id u = uid
                      then (if amt > 0
                            then u\<lparr>credits := sql_add (credits u) amt,
                                   total_earned := sql_add (total_earned u) amt\<rparr>
                            else u\<lparr>credits := sql_add (credits u) amt\<rparr>)
                      else u) (get_user db v)"
proof -
  have r: "int64 amt" "int64 uid"
    using assms by (auto simp: update_credits_def split: if_splits)
  from assms show ?thesis
    unfolding update_credits_returns [OF r] get_user_def
    by (auto simp: find_map_key [where key = user_id])
qed


lemma add_user_new:
  assumes "get_user db uid = None" and "int64 uid" and "int64_opt r"
  shows "add_user db uid n r t =
     Inr (db\<lparr>users := users db @
            [\<lparr>user_id = uid, username = n, credits = Integer 5, joined_date = t,
              referrer_id = r, is_banned = 0, total_earned = Integer 0, last_active = t\<rparr>]\<rparr>)"
  using assms by (simp add: add_user_def get_user_def)

lemma add_user_tables:
  assumes "add_user db uid n r t = Inr db1"
  shows "redeem_codes db1 = redeem_codes db" and "redeem_logs db1 = redeem_logs db"
  using assms by (auto simp: add_user_def split: if_splits option.splits)

lemma get_user_add_user_new:
  assumes "get_user db uid = None" and "add_user db uid n r t = Inr db1"
  shows "get_user db1 uid =
     Some \<lparr>user_id = uid, username = n, credits = Integer 5, joined_date = t,
              referrer_id = r, is_banned = 0, total_earned = Integer 0, last_active = t\<rparr>"
  using assms
  by (auto simp: add_user_def get_user_def find_append split: if_splits)

lemma get_user_add_user_kept:
  assumes "get_user db v = Some u" and "add_user db uid n r t = Inr db1"
  shows "get_user db1 v = Some u"
  using assms
  by (auto simp: add_user_def get_user_def find_append split: if_splits option.splits)


subsection \<open>The two parts of a redemption\<close>

lemma redeem_checks_not_success: "redeem_checks db now uid c \<noteq> Inl (Success a)"
  unfolding redeem_checks_def
  by (simp split: option.splits)

lemma redeem_checks_Inr:
  assumes "redeem_checks db now uid c = Inr a"
  shows "get_log db uid c = None"
    and "\<exists>data. get_code db c = Some data \<and> amount data = a \<and> is_active data
           \<and> current_uses data < max_uses data"
  using assms unfolding redeem_checks_def
  by (auto split: option.splits if_splits)

lemma redeem_success_iff:
  "redeem_code_db db now uid c = (db1, Success a) \<longleftrightarrow>
     redeem_checks db now uid c = Inr a \<and> db1 = redeem_process db now uid c a"
  unfolding redeem_code_db_def
  by (auto split: sum.splits simp: redeem_checks_not_success)

lemma redeem_process_fresh:
  assumes "get_log db uid c = None"
  shows "redeem_process db now uid c a =
    \<lparr>users = map (\<lambda>u. if user_id u = uid
                       then u\<lparr>credits := sql_add (credits u) a,
                              total_earned := sql_add (total_earned u) a\<rparr>
                       else u) (users db),
     redeem_codes = map (\<lambda>r. if code r = c then r\<lparr>current_uses := current_uses r + 1\<rparr> else r)
                        (redeem_codes db),
     redeem_logs = redeem_logs db @ [\<lparr>log_user_id = uid, log_code = c, claimed_date = now\<rparr>]\<rparr>"
  using assms unfolding redeem_process_def get_log_def Let_def
  by (simp add: comp_def cong: if_cong)

lemma get_log_after_process:
  assumes "get_log db uid c = None"
  shows "get_log (redeem_process db now uid c a) uid c
           = Some \<lparr>log_user_id = uid, log_code = c, claimed_date = now\<rparr>"
  using assms unfolding redeem_process_fresh [OF assms]
  by (simp add: get_log_def find_append)

lemma redeem_again:
  assumes "get_log db uid c = Some l"
  shows "redeem_code_db db now uid c = (db, Already_claimed)"
  using assms by (simp add: redeem_code_db_def redeem_checks_def)

lemma redeem_many_claimed:
  assumes "get_log db uid c = Some l"
  shows "redeem_many db uid c ts = (db, replicate (length ts) Already_claimed)"
  using assms by (induction ts) (simp_all add: redeem_again)

lemma get_user_redeem_process:
  assumes "get_log db uid c = None"
  shows "get_user (redeem_process db now uid c a) v =
     map_option (\<lambda>u. if user_id u = uid
          then u\<lparr>credits := sql_add (credits u) a, total_earned := sql_add (total_earned u) a\<rparr>
          else u) (get_user db v)"
  unfolding redeem_process_fresh [OF assms] get_user_def
  by (simp add: find_map_key [where key = user_id])

lemma get_user_redeem:
  "get_user (fst (redeem_code_db db now uid c)) v =
     (case snd (redeem_code_db db now uid c) of
        Success a \<Rightarrow>
          map_option (\<lambda>u. if user_id u = uid
             then u\<lparr>credits := sql_add (credits u) a, total_earned := sql_add (total_earned u) a\<rparr>
             else u) (get_user db v)
      | _ \<Rightarrow> get_user db v)"
proof (cases "redeem_checks db now uid c")
  case (Inl r)
  then show ?thesis
    using redeem_checks_not_success [of db now uid c]
    by (cases r) (simp_all add: redeem_code_db_def)
next
  case (Inr a)
  then show ?thesis
    by (simp add: redeem_code_db_def get_user_redeem_process [OF redeem_checks_Inr(1) [OF Inr]])
qed

subsection \<open>Use counts under each operation\<close>

lemma uses_match_redeem_process:
  assumes "uses_match_logs db" "get_log db uid c = None"
  shows "uses_match_logs (redeem_process db now uid c a)"
  using assms(1) unfolding redeem_process_fresh [OF assms(2)] uses_match_logs_def claims_of_def
  by (auto simp: list_all_iff)

lemma uses_match_redeem:
  assumes "uses_match_logs db"
  shows "uses_match_logs (fst (redeem_code_db db now uid c))"
proof (cases "redeem_checks db now uid c")
  case (Inl r)
  then show ?thesis using assms by (simp add: redeem_code_db_def)
next
  case (Inr a)
  then show ?thesis using assms uses_match_redeem_process redeem_checks_Inr(1) [OF Inr]
    by (simp add: redeem_code_db_def)
qed

lemma uses_match_deactivate: "uses_match_logs db \<Longrightarrow> uses_match_logs (deactivate_code db c)"
  unfolding uses_match_logs_def deactivate_code_def claims_of_def
  by (auto simp: list_all_iff)

lemma uses_match_delete_code: "uses_match_logs db \<Longrightarrow> uses_match_logs (delete_redeem_code db c)"
  unfolding uses_match_logs_def delete_redeem_code_def claims_of_def
  by (auto simp: list_all_iff)

lemma uses_match_add_user:
  "uses_match_logs db \<Longrightarrow> uses_match_logs (committed db (add_user db uid n r t))"
  unfolding uses_match_logs_def add_user_def claims_of_def committed_def
  by (auto simp: list_all_iff split: option.splits)

lemma uses_match_update_credits:
  "uses_match_logs db \<Longrightarrow> uses_match_logs (committed db (update_credits db uid a))"
  unfolding uses_match_logs_def update_credits_def claims_of_def committed_def
  by (auto simp: list_all_iff)

lemma uses_match_create:
  assumes "uses_match_logs db" and "create_redeem_code db c a m e now = Inr db1"
  shows "uses_match_logs db1 \<longleftrightarrow> claims_of db c = 0"
proof -
  from assms(2) have db1: "db1 = db\<lparr>redeem_codes := filter (\<lambda>r. code r \<noteq> c) (redeem_codes db) @
        [\<lparr>code = c, amount = a, max_uses = m, current_uses = 0,
          expiry_minutes = e, created_date = now, is_active = True\<rparr>]\<rparr>"
    by (auto simp: create_redeem_code_def split: if_splits)
  show ?thesis
    using assms(1) unfolding db1 uses_match_logs_def claims_of_def
    by (auto simp: list_all_iff)
qed

lemma length_filter_conj:
  "length (filter (\<lambda>l. P l \<and> Q l) ls) = length (filter Q ls)
     \<longleftrightarrow> find (\<lambda>l. \<not> P l \<and> Q l) ls = None"
proof (induction ls)
  case Nil
  show ?case by simp
next
  case (Cons l ls)
  have le: "length (filter (\<lambda>l. P l \<and> Q l) ls) \<le> length (filter Q ls)"
    by (induction ls) auto
  show ?case using Cons le by auto
qed

lemma claims_after_delete_user:
  assumes "delete_user db uid = Inr db1"
  shows "redeem_codes db1 = redeem_codes db"
    and "redeem_logs db1 = filter (\<lambda>l. log_user_id l \<noteq> uid) (redeem_logs db)"
    and "claims_of db1 c = claims_of db c \<longleftrightarrow> get_log db uid c = None"
proof -
  from assms show codes: "redeem_codes db1 = redeem_codes db"
    and logs: "redeem_logs db1 = filter (\<lambda>l. log_user_id l \<noteq> uid) (redeem_logs db)"
    by (auto simp: delete_user_def Let_def split: if_splits)
  have "length (filter (\<lambda>l. log_user_id l \<noteq> uid \<and> log_code l = c) (redeem_logs db))
          = length (filter (\<lambda>l. log_code l = c) (redeem_logs db))
        \<longleftrightarrow> find (\<lambda>l. \<not> log_user_id l \<noteq> uid \<and> log_code l = c) (redeem_logs db) = None"
    by (rule length_filter_conj)
  then show "claims_of db1 c = claims_of db c \<longleftrightarrow> get_log db uid c = None"
    unfolding claims_of_def logs get_log_def
    by (simp add: conj_commute)
qed

lemma uses_match_delete_user:
  assumes "uses_match_logs db" and "delete_user db uid = Inr db1"
  shows "uses_match_logs db1 \<longleftrightarrow> no_live_claim db uid"
  using assms(1) claims_after_delete_user(3) [OF assms(2)]
  unfolding uses_match_logs_def no_live_claim_def claims_after_delete_user(1) [OF assms(2)]
  by (simp add: list_all_iff) metis

subsection \<open>The ledger of an account under its events\<close>

lemma get_user_delete_user:
  assumes "delete_user db uid' = Inr db1" and "uid \<noteq> uid'"
  shows "get_user db1 uid =
     map_option (\<lambda>u. if referrer_id u = Some uid' then u\<lparr>referrer_id := None\<rparr> else u)
       (get_user db uid)"
proof -
  from assms(1) have "users db1 =
      map (\<lambda>u. if referrer_id u = Some uid' then u\<lparr>referrer_id := None\<rparr> else u)
          (filter (\<lambda>u. user_id u \<noteq> uid') (users db))"
    by (auto simp: delete_user_def Let_def split: if_splits)
  then show ?thesis
    unfolding get_user_def using assms(2)
    by (simp add: find_map_key [where key = user_id] find_filter_key [where key = user_id])
qed

lemma exec_keeps_account:
  assumes "\<not> touches uid op" and "get_user db uid = Some u"
  shows "\<exists>u1. get_user (exec db op) uid = Some u1
           \<and> credits u1 = credits u \<and> total_earned u1 = total_earned u"
proof (cases op)
  case (Pair now oper)
  have id: "user_id u = uid" by (rule get_user_id [OF assms(2)])
  show ?thesis
  proof (cases oper)
    case (Add_user uid' n r t)
    show ?thesis
    proof (cases "add_user db uid' n r t")
      case (Inl e)
      then show ?thesis using assms(2) Pair Add_user by (simp add: committed_def)
    next
      case (Inr db1)
      then show ?thesis
        using get_user_add_user_kept [OF assms(2) Inr] Pair Add_user by (simp add: committed_def)
    qed
  next
    case (Update_credits uid' a)
    then have ne: "uid' \<noteq> uid" using assms(1) Pair by simp
    show ?thesis
    proof (cases "update_credits db uid' a")
      case (Inl e)
      then show ?thesis using assms(2) Pair Update_credits by (simp add: committed_def)
    next
      case (Inr db1)
      then show ?thesis
        using get_user_update_credits [OF Inr, of uid] assms(2) id ne Pair Update_credits
        by (simp add: committed_def)
    qed
  next
    case (Create_redeem_code c a m e)
    then show ?thesis using assms(2) Pair
      by (auto simp: committed_def create_redeem_code_def get_user_def)
  next
    case (Redeem_code_db uid' c)
    then have ne: "uid' \<noteq> uid" using assms(1) Pair by simp
    show ?thesis
      using get_user_redeem [of db now uid' c uid] assms(2) id ne Pair Redeem_code_db
      by (auto split: redeem_result.splits)
  next
    case (Deactivate_code c)
    then show ?thesis using assms(2) Pair by (simp add: deactivate_code_def get_user_def)
  next
    case (Delete_redeem_code c)
    then show ?thesis using assms(2) Pair by (simp add: delete_redeem_code_def get_user_def)
  next
    case (Delete_user uid')
    then have ne: "uid \<noteq> uid'" using assms(1) Pair by auto
    show ?thesis
    proof (cases "delete_user db uid'")
      case (Inl e)
      then show ?thesis using assms(2) Pair Delete_user by (simp add: committed_def)
    next
      case (Inr db1)
      then show ?thesis
        using get_user_delete_user [OF Inr ne] assms(2) Pair Delete_user
        by (simp add: committed_def)
    qed
  qed
qed

lemma apply_event_account:
  assumes "apply_event db uid ev = (db1, d)" and "get_user db uid = Some u"
    and "foreign uid ev"
  shows "\<exists>u1. get_user db1 uid = Some u1 \<and>
     (d = 0 \<and> credits u1 = credits u \<and> total_earned u1 = total_earned u
      \<or> credits u1 = sql_add (credits u) d \<and>
        total_earned u1 =
          (if (case ev of Redemption now c \<Rightarrow> True | _ \<Rightarrow> 0 < d)
           then sql_add (total_earned u) d else total_earned u))"
proof (cases ev)
  case (Redemption now c)
  have id: "user_id u = uid" by (rule get_user_id [OF assms(2)])
  show ?thesis
  proof (cases "redeem_checks db now uid c")
    case (Inl r)
    then have "db1 = db" "d = 0"
      using assms(1) Redemption redeem_checks_not_success [of db now uid c]
      by (auto simp: redeem_code_db_def split: redeem_result.splits)
    then show ?thesis using assms(2) by simp
  next
    case (Inr a)
    then have db1: "db1 = redeem_process db now uid c a" and d: "d = a"
      using assms(1) Redemption by (auto simp: redeem_code_db_def)
    show ?thesis
      unfolding db1 d using assms(2) id Redemption
      by (simp add: get_user_redeem_process [OF redeem_checks_Inr(1) [OF Inr]])
  qed
next
  case Referral_grant
  have id: "user_id u = uid" by (rule get_user_id [OF assms(2)])
  show ?thesis
  proof (cases "update_credits db uid 3")
    case (Inl e)
    then show ?thesis using assms(1,2) Referral_grant by simp
  next
    case (Inr db2)
    then show ?thesis
      using get_user_update_credits [OF Inr, of uid] assms(1,2) id Referral_grant by auto
  qed
next
  case (Admin_adjustment a)
  have id: "user_id u = uid" by (rule get_user_id [OF assms(2)])
  show ?thesis
  proof (cases "update_credits db uid a")
    case (Inl e)
    then show ?thesis using assms(1,2) Admin_adjustment by simp
  next
    case (Inr db2)
    then show ?thesis
      using get_user_update_credits [OF Inr, of uid] assms(1,2) id Admin_adjustment by auto
  qed
next
  case (Elsewhere op)
  then have "\<not> touches uid op" using assms(3) by simp
  from exec_keeps_account [OF this assms(2)] show ?thesis
    using assms(1) Elsewhere by auto
qed

lemma positive_deltas_nonneg: "0 \<le> positive_deltas ds"
  unfolding positive_deltas_def by (induction ds) auto

lemma sum_list_split: "sum_list ds = positive_deltas ds + negative_deltas ds"
  unfolding positive_deltas_def negative_deltas_def
  by (induction ds) auto

lemma replay_balance:
  assumes "replay db uid es = (db2, log)" and "get_user db uid = Some u"
    and "list_all (foreign uid) es" and "credits u = Integer b"
  shows "\<exists>u2. get_user db2 uid = Some u2
     \<and> (credits u2 = Inexact \<or> credits u2 = Integer (b + sum_list (deltas log)))
     \<and> (list_all int64 (balances b (deltas log))
          \<longrightarrow> credits u2 = Integer (b + sum_list (deltas log)))"
  using assms
proof (induction es arbitrary: db u b log db2)
  case Nil
  then show ?case by (simp add: deltas_def)
next
  case (Cons e es)
  obtain db1 d where ev: "apply_event db uid e = (db1, d)" by (cases "apply_event db uid e")
  obtain db3 log3 where rp: "replay db1 uid es = (db3, log3)" by (cases "replay db1 uid es")
  from Cons.prems(1) ev rp have eq: "db2 = db3" "log = (e, d) # log3" by simp_all
  from Cons.prems(3) have fe: "foreign uid e" and fes: "list_all (foreign uid) es" by simp_all
  from apply_event_account [OF ev Cons.prems(2) fe] Cons.prems(4) obtain u1 where
    u1: "get_user db1 uid = Some u1"
    and c1: "d = 0 \<and> credits u1 = Integer b \<or> credits u1 = sql_add (Integer b) d" by auto
  show ?case
  proof (cases "credits u1")
    case (Integer b1)
    with c1 have b1: "b1 = b + d" by (auto split: if_splits)
    have r: "int64 (b + d) \<or> d = 0" using c1 Integer by (auto split: if_splits)
    from Cons.IH [OF rp u1 fes Integer] obtain u2 where
      "get_user db3 uid = Some u2"
      "credits u2 = Inexact \<or> credits u2 = Integer (b1 + sum_list (deltas log3))"
      "list_all int64 (balances b1 (deltas log3))
          \<longrightarrow> credits u2 = Integer (b1 + sum_list (deltas log3))" by blast
    then show ?thesis
      unfolding eq b1 by (auto simp: deltas_def add.assoc)
  next
    case Inexact
    then have ov: "\<not> int64 (b + d)" using c1 by (auto split: if_splits)
    have "\<exists>u2. get_user db3 uid = Some u2 \<and> credits u2 = Inexact"
      using rp u1 fes Inexact
    proof (induction es arbitrary: db1 u1 log3 db3)
      case Nil
      then show ?case by simp
    next
      case (Cons e' es')
      obtain db4 d' where ev': "apply_event db1 uid e' = (db4, d')"
        by (cases "apply_event db1 uid e'")
      obtain db5 log5 where rp': "replay db4 uid es' = (db5, log5)"
        by (cases "replay db4 uid es'")
      from Cons.prems(1) ev' rp' have eq': "db3 = db5" by simp
      from Cons.prems(3) have fe': "foreign uid e'" and fes': "list_all (foreign uid) es'"
        by simp_all
      from apply_event_account [OF ev' Cons.prems(2) fe'] Cons.prems(4) obtain u4 where
        "get_user db4 uid = Some u4" "credits u4 = Inexact" by auto
      from Cons.IH [OF rp' this(1) fes' this(2)] show ?case unfolding eq' .
    qed
    then show ?thesis
      unfolding eq using ov by (auto simp: deltas_def)
  qed
qed

lemma replay_earned:
  assumes "replay db uid es = (db2, log)" and "get_user db uid = Some u"
    and "list_all (foreign uid) es" and "total_earned u = Integer e" and "0 \<le> e"
    and "list_all grant_not_negative log"
    and "int64 (e + positive_deltas (deltas log))"
  shows "\<exists>u2. get_user db2 uid = Some u2
     \<and> total_earned u2 = Integer (e + positive_deltas (deltas log))"
  using assms
proof (induction es arbitrary: db u e log db2)
  case Nil
  then show ?case by (simp add: deltas_def positive_deltas_def)
next
  case (Cons ev es)
  obtain db1 d where ev: "apply_event db uid ev = (db1, d)" by (cases "apply_event db uid ev")
  obtain db3 log3 where rp: "replay db1 uid es = (db3, log3)" by (cases "replay db1 uid es")
  from Cons.prems(1) ev rp have eq: "db2 = db3" "log = (ev, d) # log3" by simp_all
  from Cons.prems(3) have fe: "foreign uid ev" and fes: "list_all (foreign uid) es" by simp_all
  from Cons.prems(6) eq have g: "grant_not_negative (ev, d)" "list_all grant_not_negative log3"
    by simp_all
  let ?p = "if 0 < d then d else 0"
  have pd: "positive_deltas (deltas log) = ?p + positive_deltas (deltas log3)"
    unfolding eq by (simp add: deltas_def positive_deltas_def)
  have nn: "0 \<le> positive_deltas (deltas log3)" by (rule positive_deltas_nonneg)
  have in1: "int64 (e + ?p)" "0 \<le> e + ?p"
    using Cons.prems(5,7) nn unfolding pd int64_def by (auto split: if_splits)
  have in0: "int64 e" using Cons.prems(5) in1 unfolding int64_def by (auto split: if_splits)
  from apply_event_account [OF ev Cons.prems(2) fe] Cons.prems(4) obtain u1 where
    u1: "get_user db1 uid = Some u1"
    and t1: "total_earned u1 = Integer e \<and> d = 0
       \<or> total_earned u1 =
          (if (case ev of Redemption now c \<Rightarrow> True | _ \<Rightarrow> 0 < d)
           then sql_add (Integer e) d else Integer e)" by auto
  have d0: "(case ev of Redemption now c \<Rightarrow> True | _ \<Rightarrow> 0 < d) \<Longrightarrow> 0 \<le> d"
    using g(1) by (cases ev) auto
  have d1: "0 < d \<Longrightarrow> (case ev of Redemption now c \<Rightarrow> True | _ \<Rightarrow> 0 < d)"
    by (cases ev) auto
  have te1: "total_earned u1 = Integer (e + ?p)"
    using t1 in1 in0 d0 d1 by (auto split: if_splits)
  have r: "int64 (e + ?p + positive_deltas (deltas log3))"
    using Cons.prems(7) unfolding pd by (simp add: add.assoc)
  from Cons.IH [OF rp u1 fes te1 in1(2) g(2) r] show ?case
    unfolding eq(1) pd by (simp add: add.assoc)
qed

subsection \<open>Codes that are not active\<close>

lemma get_code_redeem:
  "map_option is_active (get_code (fst (redeem_code_db db now uid c')) c)
     = map_option is_active (get_code db c)"
proof (cases "redeem_checks db now uid c'")
  case (Inl r)
  then show ?thesis by (simp add: redeem_code_db_def)
next
  case (Inr a)
  have "get_code (redeem_process db now uid c' a) c
       = map_option (\<lambda>r. if code r = c' then r\<lparr>current_uses := current_uses r + 1\<rparr> else r)
           (get_code db c)"
    unfolding redeem_process_fresh [OF redeem_checks_Inr(1) [OF Inr]] get_code_def
    by (simp add: find_map_key [where key = code])
  then show ?thesis using Inr
    by (cases "get_code db c") (simp_all add: redeem_code_db_def)
qed

lemma retired_exec:
  assumes "retired db c" and "\<not> creates c op"
  shows "retired (exec db op) c"
proof (cases op)
  case (Pair now oper)
  show ?thesis
  proof (cases oper)
    case (Add_user uid n r t)
    then show ?thesis using assms Pair
      by (auto simp: retired_def get_code_def add_user_def committed_def split: option.splits)
  next
    case (Update_credits uid a)
    then show ?thesis using assms Pair
      by (auto simp: retired_def get_code_def update_credits_def committed_def)
  next
    case (Create_redeem_code c' a m e)
    then show ?thesis using assms Pair
      by (auto simp: retired_def get_code_def create_redeem_code_def committed_def find_append
          find_filter_key split: option.splits)
  next
    case (Redeem_code_db uid c')
    then show ?thesis using assms Pair get_code_redeem [of db now uid c' c]
      by (auto simp: retired_def split: option.splits)
  next
    case (Deactivate_code c')
    have "get_code (deactivate_code db c') c
       = map_option (\<lambda>r. if code r = c' then r\<lparr>is_active := False\<rparr> else r) (get_code db c)"
      unfolding deactivate_code_def get_code_def
      by (simp add: find_map_key [where key = code])
    then show ?thesis using assms Pair Deactivate_code
      by (auto simp: retired_def split: option.splits)
  next
    case (Delete_redeem_code c')
    then show ?thesis using assms Pair
      by (auto simp: retired_def get_code_def delete_redeem_code_def find_filter_key
          split: option.splits)
  next
    case (Delete_user uid)
    then show ?thesis using assms Pair
      by (auto simp: retired_def get_code_def delete_user_def committed_def Let_def)
  qed
qed

lemma retired_run:
  "retired db c \<Longrightarrow> list_all (\<lambda>op. \<not> creates c op) ops \<Longrightarrow> retired (run db ops) c"
  unfolding run_def
  by (induction ops arbitrary: db) (simp_all add: retired_exec)

lemma redeem_retired:
  assumes "retired db c"
  shows "redeem_code_db db now uid c =
     (db, if get_log db uid c \<noteq> None then Already_claimed
          else if get_code db c = None then Invalid else Inactive)"
  using assms
  by (auto simp: retired_def redeem_code_db_def redeem_checks_def split: option.splits)

subsection \<open>Searching for a unit in a duration\<close>






















section \<open>Claims\<close>

text \<open>
  C1. From a database in which every row of \<^verbatim>\<open>redeem_codes\<close> has \<open>current_uses\<close>
  equal to the number of rows of \<^verbatim>\<open>redeem_logs\<close> for its code, \<^verbatim>\<open>redeem_code_db\<close>
  (run without interruption), \<^verbatim>\<open>deactivate_code\<close>, \<^verbatim>\<open>delete_redeem_code\<close>,
  \<^verbatim>\<open>add_user\<close> and \<^verbatim>\<open>update_credits\<close> lead to a database where the equality holds
  again. \<^verbatim>\<open>create_redeem_code\<close> sets \<open>current_uses\<close> of the code to 0 and leaves the
  log as it is: after it the equality holds exactly when no log row names the created
  code. \<^verbatim>\<open>delete_user\<close> deletes the account's log rows and leaves every
  \<open>current_uses\<close> as it is: after it the equality holds exactly when the deleted account
  has no log row for a code that has a row. (An operation whose parameters cannot be
  bound raises and writes nothing.)
\<close>

theorem use_counts_kept_by_operations:
  assumes "uses_match_logs db"
  shows "uses_match_logs (fst (redeem_code_db db now uid c))
       \<and> uses_match_logs (deactivate_code db c)
       \<and> uses_match_logs (delete_redeem_code db c)
       \<and> uses_match_logs (committed db (add_user db uid uname referrer current_time))
       \<and> uses_match_logs (committed db (update_credits db uid amt))
       \<and> (int64 amt \<and> int64 uses \<and> int64_opt expiry \<longrightarrow>
            (uses_match_logs (committed db (create_redeem_code db c amt uses expiry now))
               \<longleftrightarrow> claims_of db c = 0)
            \<and> map_option current_uses
                 (get_code (committed db (create_redeem_code db c amt uses expiry now)) c) = Some 0
            \<and> redeem_logs (committed db (create_redeem_code db c amt uses expiry now))
                 = redeem_logs db)
       \<and> (int64 uid \<longrightarrow>
            (uses_match_logs (committed db (delete_user db uid)) \<longleftrightarrow> no_live_claim db uid)
            \<and> redeem_codes (committed db (delete_user db uid)) = redeem_codes db
            \<and> redeem_logs (committed db (delete_user db uid))
                 = filter (\<lambda>l. log_user_id l \<noteq> uid) (redeem_logs db))"
proof -
  have create: "int64 amt \<and> int64 uses \<and> int64_opt expiry \<longrightarrow>
            (uses_match_logs (committed db (create_redeem_code db c amt uses expiry now))
               \<longleftrightarrow> claims_of db c = 0)
            \<and> map_option current_uses
                 (get_code (committed db (create_redeem_code db c amt uses expiry now)) c) = Some 0
            \<and> redeem_logs (committed db (create_redeem_code db c amt uses expiry now))
                 = redeem_logs db"
  proof
    assume r: "int64 amt \<and> int64 uses \<and> int64_opt expiry"
    then obtain db1 where cr: "create_redeem_code db c amt uses expiry now = Inr db1"
      by (simp add: create_redeem_code_def)
    have "map_option current_uses (get_code db1 c) = Some 0" "redeem_logs db1 = redeem_logs db"
      using cr by (auto simp: create_redeem_code_def get_code_def find_append find_filter_key
          split: if_splits)
    then show "(uses_match_logs (committed db (create_redeem_code db c amt uses expiry now))
               \<longleftrightarrow> claims_of db c = 0)
            \<and> map_option current_uses
                 (get_code (committed db (create_redeem_code db c amt uses expiry now)) c) = Some 0
            \<and> redeem_logs (committed db (create_redeem_code db c amt uses expiry now))
                 = redeem_logs db"
      using uses_match_create [OF assms cr] unfolding cr committed_def by simp
  qed
  have delete: "int64 uid \<longrightarrow>
            (uses_match_logs (committed db (delete_user db uid)) \<longleftrightarrow> no_live_claim db uid)
            \<and> redeem_codes (committed db (delete_user db uid)) = redeem_codes db
            \<and> redeem_logs (committed db (delete_user db uid))
                 = filter (\<lambda>l. log_user_id l \<noteq> uid) (redeem_logs db)"
  proof
    assume "int64 uid"
    then obtain db2 where del: "delete_user db uid = Inr db2"
      by (simp add: delete_user_def Let_def)
    show "(uses_match_logs (committed db (delete_user db uid)) \<longleftrightarrow> no_live_claim db uid)
            \<and> redeem_codes (committed db (delete_user db uid)) = redeem_codes db
            \<and> redeem_logs (committed db (delete_user db uid))
                 = filter (\<lambda>l. log_user_id l \<noteq> uid) (redeem_logs db)"
      using uses_match_delete_user [OF assms del] claims_after_delete_user(1,2) [OF del]
      unfolding del committed_def by simp
  qed
  from create delete show ?thesis
    using assms
    by (simp add: uses_match_redeem uses_match_deactivate uses_match_delete_code
        uses_match_add_user uses_match_update_credits)
qed

theorem use_counts_kept_by_operations_witness:
  "uses_match_logs flash_db
   \<and> snd (redeem_code_db flash_db 60000000 2 ''FLASH100'') = Success 100
   \<and> uses_match_logs (fst (redeem_code_db flash_db 60000000 2 ''FLASH100''))
   \<and> uses_match_logs flash_claimed_db
   \<and> uses_match_logs (deactivate_code flash_claimed_db ''FLASH100'')
   \<and> uses_match_logs (delete_redeem_code flash_claimed_db ''FLASH100'')
   \<and> claims_of flash_claimed_db ''NEW50'' = 0
   \<and> uses_match_logs
        (committed flash_claimed_db (create_redeem_code flash_claimed_db ''NEW50'' 50 3 None 120000000))
   \<and> no_live_claim flash_claimed_db 2
   \<and> uses_match_logs (committed flash_claimed_db (delete_user flash_claimed_db 2))"
proof -
  have h0: "uses_match_logs flash_db"
    unfolding flash_db_def by (simp add: uses_match_logs_def claims_of_def)
  have s: "snd (redeem_code_db flash_db 60000000 2 ''FLASH100'') = Success 100"
    unfolding flash_db_def by (simp add: operation_defs)
  have h: "uses_match_logs flash_claimed_db"
    unfolding flash_claimed_db_eq by (simp add: uses_match_logs_def claims_of_def)
  have c: "claims_of flash_claimed_db ''NEW50'' = 0"
    unfolding flash_claimed_db_eq by (simp add: claims_of_def)
  have n: "no_live_claim flash_claimed_db 2"
    unfolding flash_claimed_db_eq by (simp add: no_live_claim_def get_log_def)
  have r: "int64 50" "int64 3" "int64_opt None" "int64 2"
    by (simp_all add: int64_def int64_opt_def)
  from use_counts_kept_by_operations [OF h0, where now = 60000000 and uid = 2
      and c = "''FLASH100''"]
    use_counts_kept_by_operations [OF h, where c = "''FLASH100''"]
    use_counts_kept_by_operations [OF h, where now = 120000000 and uid = 2 and c = "''NEW50''"
      and amt = 50 and uses = 3 and expiry = None]
    h0 s h c n r
  show ?thesis by simp
qed

text \<open>
  The equality does not hold in every state the operations reach: after a code is
  created, redeemed by account 1 and account 1 is deleted, the code's \<open>current_uses\<close> is
  1 and no log row names it.
\<close>

theorem delete_user_breaks_use_count:
  "\<not> uses_match_logs
       (run init_db [(0, Create_redeem_code ''FLASH100'' 100 1 (Some 15)),
                     (60000000, Redeem_code_db 1 ''FLASH100''),
                     (120000000, Delete_user 1)])"
  by (simp add: run_def init_db_def uses_match_logs_def claims_of_def operation_defs)

text \<open>
  C2. Two accounts redeem a code with \<open>max_uses = 1\<close> at once, both calls making their
  checks before either transaction runs: both calls return the amount, \<open>current_uses\<close>
  ends at 2, above \<open>max_uses\<close>, and both accounts are credited. When the second call starts
  after the first has finished, it returns \<^verbatim>\<open>"limit_reached"\<close>.
\<close>

theorem interleaved_redeems_exceed_limit:
  "snd (redeem_code_db_interleaved flash_db 60000000 (1, ''FLASH100'') (2, ''FLASH100''))
       = (Success 100, Success 100)
   \<and> map_option max_uses
        (get_code (fst (redeem_code_db_interleaved flash_db 60000000 (1, ''FLASH100'') (2, ''FLASH100'')))
           ''FLASH100'') = Some 1
   \<and> map_option current_uses
        (get_code (fst (redeem_code_db_interleaved flash_db 60000000 (1, ''FLASH100'') (2, ''FLASH100'')))
           ''FLASH100'') = Some 2
   \<and> map_option credits
        (get_user (fst (redeem_code_db_interleaved flash_db 60000000 (1, ''FLASH100'') (2, ''FLASH100''))) 1)
        = Some (Integer 105)
   \<and> map_option credits
        (get_user (fst (redeem_code_db_interleaved flash_db 60000000 (1, ''FLASH100'') (2, ''FLASH100''))) 2)
        = Some (Integer 105)
   \<and> snd (redeem_code_db (fst (redeem_code_db flash_db 60000000 1 ''FLASH100'')) 60000000 2 ''FLASH100'')
        = Limit_reached"
  unfolding flash_db_def
  by (simp add: redeem_code_db_interleaved_def operation_defs)

text \<open>
  C3. For calls of \<^verbatim>\<open>redeem_code_db\<close> that do not overlap: when a redeem of a code by
  an account returns the amount (Success), the amount is the one of the code's row, and
  every further redeem of the same code by the same account, at any times, returns
  \<^verbatim>\<open>"already_claimed"\<close> and leaves the database as it is. The account's balance and
  \<open>total_earned\<close> have had the amount added once; the balance after the whole sequence
  is the balance before the first redeem plus the amount when that sum is within the
  signed 64-bit range, and is no longer that integer when the sum is not.
\<close>

theorem redeem_once_then_already_claimed:
  assumes "redeem_code_db db now uid c = (db1, Success amt)"
    and "get_user db uid = Some u"
  shows "(\<exists>data. get_code db c = Some data \<and> amount data = amt)
     \<and> redeem_many db1 uid c ts = (db1, replicate (length ts) Already_claimed)
     \<and> get_user (fst (redeem_many db1 uid c ts)) uid
          = Some (u\<lparr>credits := sql_add (credits u) amt,
                     total_earned := sql_add (total_earned u) amt\<rparr>)
     \<and> (credits u = Integer b \<and> int64 (b + amt) \<longrightarrow>
          map_option credits (get_user (fst (redeem_many db1 uid c ts)) uid)
            = Some (Integer (b + amt)))
     \<and> (credits u = Integer b \<and> \<not> int64 (b + amt) \<longrightarrow>
          map_option credits (get_user (fst (redeem_many db1 uid c ts)) uid) = Some Inexact)"
proof -
  from assms(1) have chk: "redeem_checks db now uid c = Inr amt"
    and db1: "db1 = redeem_process db now uid c amt"
    by (simp_all add: redeem_success_iff)
  note nolog = redeem_checks_Inr(1) [OF chk]
  have "get_log db1 uid c = Some \<lparr>log_user_id = uid, log_code = c, claimed_date = now\<rparr>"
    unfolding db1 by (rule get_log_after_process [OF nolog])
  then have many: "redeem_many db1 uid c ts = (db1, replicate (length ts) Already_claimed)"
    by (rule redeem_many_claimed)
  have usr: "get_user db1 uid
      = Some (u\<lparr>credits := sql_add (credits u) amt, total_earned := sql_add (total_earned u) amt\<rparr>)"
    unfolding db1 using assms(2) get_user_id [OF assms(2)]
    by (simp add: get_user_redeem_process [OF nolog])
  from redeem_checks_Inr(2) [OF chk] many usr show ?thesis by auto
qed

theorem redeem_once_then_already_claimed_witness:
  "redeem_code_db flash_db 60000000 1 ''FLASH100'' = (flash_claimed_db, Success 100)
   \<and> map_option credits (get_user flash_db 1) = Some (Integer 5)
   \<and> int64 (5 + 100)
   \<and> redeem_many flash_claimed_db 1 ''FLASH100'' [70000000, 80000000, 90000000]
        = (flash_claimed_db, [Already_claimed, Already_claimed, Already_claimed])
   \<and> map_option credits
        (get_user (fst (redeem_many flash_claimed_db 1 ''FLASH100'' [70000000, 80000000, 90000000])) 1)
        = Some (Integer 105)"
proof -
  let ?u = "\<lparr>user_id = 1, username = Some ''ann'', credits = Integer 5, joined_date = ''0.0'',
           referrer_id = None, is_banned = 0, total_earned = Integer 0, last_active = ''0.0''\<rparr>"
  have r: "redeem_code_db flash_db 60000000 1 ''FLASH100'' = (flash_claimed_db, Success 100)"
    unfolding flash_redeem_eq flash_claimed_db_eq by simp
  have u: "get_user flash_db 1 = Some ?u"
    unfolding flash_db_def by (simp add: get_user_def)
  have i: "int64 (5 + 100)" by (simp add: int64_def)
  from redeem_once_then_already_claimed [OF r u, where b = 5
      and ts = "[70000000, 80000000, 90000000]"] r u i
  show ?thesis by (auto simp del: redeem_many.simps)
qed

text \<open>
  A code worth 9223372036854775807 credits, which \<^verbatim>\<open>create_redeem_code\<close> accepts:
  account 1, with 5 credits, redeems it and the call returns the amount, but the sum
  leaves the 64-bit range and the balance is not 5 plus the amount.
\<close>

theorem redeem_overflows_balance:
  "map_option credits (get_user flash_db 1) = Some (Integer 5)
   \<and> snd (redeem_code_db
            (committed flash_db (create_redeem_code flash_db ''MAX'' 9223372036854775807 1 None 0))
            60000000 1 ''MAX'') = Success 9223372036854775807
   \<and> map_option credits
        (get_user (fst (redeem_code_db
            (committed flash_db (create_redeem_code flash_db ''MAX'' 9223372036854775807 1 None 0))
            60000000 1 ''MAX'')) 1) = Some Inexact"
  unfolding flash_db_def
  by (simp add: operation_defs)

text \<open>
  C4. For a code that exists, is active and has an expiry of \<open>m > 0\<close> minutes, and an
  account that has not claimed it, a redeem at a time later than the creation date
  plus \<open>m\<close> minutes changes nothing and returns \<^verbatim>\<open>"expired"\<close> when uses remain
  (\<open>current_uses < max_uses\<close>); when the use limit is reached it returns
  \<^verbatim>\<open>"limit_reached"\<close>, since the limit is checked before the expiry. The dates are
  \<^verbatim>\<open>datetime\<close> values, between \<^verbatim>\<open>datetime.min\<close> and \<^verbatim>\<open>datetime.max\<close>.
\<close>

theorem expired_code_after_limit_check:
  assumes "get_log db uid c = None"
    and "get_code db c = Some data"
    and "is_active data"
    and "expiry_minutes data = Some m" and "0 < m"
    and "0 \<le> created_date data" and "now \<le> datetime_max"
    and "created_date data + m * 60000000 < now"
  shows "redeem_code_db db now uid c =
           (db, if current_uses data < max_uses data then Expired else Limit_reached)"
proof -
  have "m * 60000000 < datetime_max" using assms by linarith
  then have "m div 1440 \<le> 999999999" unfolding datetime_max_def by linarith
  moreover have "0 \<le> m div 1440" using \<open>0 < m\<close> by simp
  ultimately have "expiry_dt (created_date data) m = Some (created_date data + m * 60000000)"
    using assms unfolding expiry_dt_def Let_def by auto
  then show ?thesis
    using assms by (simp add: redeem_code_db_def redeem_checks_def)
qed

theorem expired_code_after_limit_check_witness:
  "get_log flash_db 2 ''FLASH100'' = None
   \<and> map_option is_active (get_code flash_db ''FLASH100'') = Some True
   \<and> map_option expiry_minutes (get_code flash_db ''FLASH100'') = Some (Some 15)
   \<and> map_option created_date (get_code flash_db ''FLASH100'') = Some 0
   \<and> (0::int) + 15 * 60000000 < 960000000
   \<and> 960000000 \<le> datetime_max
   \<and> redeem_code_db flash_db 960000000 2 ''FLASH100'' = (flash_db, Expired)"
proof -
  let ?data = "\<lparr>code = ''FLASH100'', amount = 100, max_uses = 1, current_uses = 0,
           expiry_minutes = Some 15, created_date = 0, is_active = True\<rparr>"
  have l: "get_log flash_db 2 ''FLASH100'' = None"
    unfolding flash_db_def by (simp add: get_log_def)
  have g: "get_code flash_db ''FLASH100'' = Some ?data"
    unfolding flash_db_def by (simp add: get_code_def)
  have b: "(960000000::int) \<le> datetime_max" by (simp add: datetime_max_def)
  from expired_code_after_limit_check [OF l g _ _ _ _ b, of 15] l g b
  show ?thesis by simp
qed

text \<open>
  An expired code whose use limit is reached: account 2, which has not claimed
  \<^verbatim>\<open>FLASH100\<close>, redeems it 16 minutes after its creation, one minute after its 15
  minutes ran out, and gets \<^verbatim>\<open>"limit_reached"\<close>.
\<close>

theorem limit_reached_hides_expiry:
  "get_log flash_claimed_db 2 ''FLASH100'' = None
   \<and> map_option is_active (get_code flash_claimed_db ''FLASH100'') = Some True
   \<and> map_option expiry_minutes (get_code flash_claimed_db ''FLASH100'') = Some (Some 15)
   \<and> expiry_dt 0 15 = Some 900000000
   \<and> redeem_code_db flash_claimed_db 960000000 2 ''FLASH100'' = (flash_claimed_db, Limit_reached)"
  unfolding flash_claimed_db_eq
  by (simp add: operation_defs)

text \<open>
  C5. For an account created by \<^verbatim>\<open>add_user\<close> (id and referrer within the 64-bit range)
  and any sequence, applied afterwards, of its redemption attempts, referral grants and
  administrator adjustments, mixed with operations that do not write to its balance: as
  long as every balance on the way is within the signed 64-bit range, the final balance
  is the 5 credits of the signup plus the sum of the positive deltas plus the sum of the
  negative deltas (otherwise it is no longer an integer the model follows).
  \<open>total_earned\<close> is the sum of the positive deltas when no redemption granted a
  negative amount and that sum is within the range.
\<close>

theorem balance_is_signup_credits_plus_deltas:
  assumes "get_user db uid = None" and "int64 uid" and "int64_opt referrer"
    and "list_all (foreign uid) events"
  shows "\<exists>db0 u. add_user db uid uname referrer current_time = Inr db0
     \<and> get_user (fst (replay db0 uid events)) uid = Some u
     \<and> (list_all int64 (balances 5 (deltas (snd (replay db0 uid events)))) \<longrightarrow>
          credits u = Integer (5 + positive_deltas (deltas (snd (replay db0 uid events)))
                                 + negative_deltas (deltas (snd (replay db0 uid events)))))
     \<and> (credits u = Inexact
          \<or> credits u = Integer (5 + positive_deltas (deltas (snd (replay db0 uid events)))
                                   + negative_deltas (deltas (snd (replay db0 uid events)))))
     \<and> (list_all grant_not_negative (snd (replay db0 uid events))
          \<and> int64 (positive_deltas (deltas (snd (replay db0 uid events)))) \<longrightarrow>
          total_earned u = Integer (positive_deltas (deltas (snd (replay db0 uid events)))))"
proof -
  let ?u = "\<lparr>user_id = uid, username = uname, credits = Integer 5, joined_date = current_time,
             referrer_id = referrer, is_banned = 0, total_earned = Integer 0,
             last_active = current_time\<rparr>"
  obtain db0 where add: "add_user db uid uname referrer current_time = Inr db0"
    using add_user_new [OF assms(1,2,3)] by blast
  have new: "get_user db0 uid = Some ?u"
    by (rule get_user_add_user_new [OF assms(1) add])
  obtain db2 log where rp: "replay db0 uid events = (db2, log)"
    by (cases "replay db0 uid events")
  from replay_balance [OF rp new assms(4), of 5] obtain u2 where
    u2: "get_user db2 uid = Some u2"
    and bal: "credits u2 = Inexact \<or> credits u2 = Integer (5 + sum_list (deltas log))"
      "list_all int64 (balances 5 (deltas log))
          \<longrightarrow> credits u2 = Integer (5 + sum_list (deltas log))"
    by auto
  have earned: "list_all grant_not_negative log \<and> int64 (positive_deltas (deltas log))
       \<longrightarrow> total_earned u2 = Integer (positive_deltas (deltas log))"
  proof
    assume h: "list_all grant_not_negative log \<and> int64 (positive_deltas (deltas log))"
    from replay_earned [OF rp new assms(4), of 0] h u2 show
      "total_earned u2 = Integer (positive_deltas (deltas log))" by auto
  qed
  show ?thesis
    apply (rule exI [of _ db0])
    apply (rule exI [of _ u2])
    using add u2 bal earned by (auto simp: rp sum_list_split add.assoc)
qed

theorem balance_is_signup_credits_plus_deltas_witness:
  "get_user flash_db 3 = None
   \<and> deltas (snd (replay (committed flash_db (add_user flash_db 3 (Some ''cy'') None ''9.5'')) 3
        [Redemption 60000000 ''FLASH100'', Referral_grant,
         Elsewhere (70000000, Create_redeem_code ''NEW50'' 50 3 None),
         Redemption 80000000 ''NEW50'', Admin_adjustment (- 2)])) = [100, 3, 0, 50, - 2]
   \<and> (\<exists>u. get_user (fst (replay (committed flash_db (add_user flash_db 3 (Some ''cy'') None ''9.5'')) 3
        [Redemption 60000000 ''FLASH100'', Referral_grant,
         Elsewhere (70000000, Create_redeem_code ''NEW50'' 50 3 None),
         Redemption 80000000 ''NEW50'', Admin_adjustment (- 2)])) 3 = Some u
          \<and> credits u = Integer 156 \<and> total_earned u = Integer 153)"
proof -
  let ?es = "[Redemption 60000000 ''FLASH100'', Referral_grant,
         Elsewhere (70000000, Create_redeem_code ''NEW50'' 50 3 None),
         Redemption 80000000 ''NEW50'', Admin_adjustment (- 2)]"
  let ?db0 = "committed flash_db (add_user flash_db 3 (Some ''cy'') None ''9.5'')"
  have h: "get_user flash_db 3 = None"
    unfolding flash_db_def by (simp add: get_user_def)
  have i: "int64 3" "int64_opt None" by (simp_all add: int64_def int64_opt_def)
  have f: "list_all (foreign 3) ?es" by simp
  have l: "snd (replay ?db0 3 ?es) =
      [(Redemption 60000000 ''FLASH100'', 100), (Referral_grant, 3),
       (Elsewhere (70000000, Create_redeem_code ''NEW50'' 50 3 None), 0),
       (Redemption 80000000 ''NEW50'', 50), (Admin_adjustment (- 2), - 2)]"
    unfolding flash_db_def by (simp add: operation_defs)
  from balance_is_signup_credits_plus_deltas [OF h i f, of "Some ''cy''" "''9.5''"]
  obtain db0 u where
    a: "add_user flash_db 3 (Some ''cy'') None ''9.5'' = Inr db0"
    and g: "get_user (fst (replay db0 3 ?es)) 3 = Some u"
    and c: "list_all int64 (balances 5 (deltas (snd (replay db0 3 ?es)))) \<longrightarrow>
          credits u = Integer (5 + positive_deltas (deltas (snd (replay db0 3 ?es)))
                                 + negative_deltas (deltas (snd (replay db0 3 ?es))))"
    and t: "list_all grant_not_negative (snd (replay db0 3 ?es))
          \<and> int64 (positive_deltas (deltas (snd (replay db0 3 ?es)))) \<longrightarrow>
          total_earned u = Integer (positive_deltas (deltas (snd (replay db0 3 ?es))))"
    by blast
  have d: "db0 = ?db0" using a by (simp add: committed_def)
  from c t have "credits u = Integer 156" "total_earned u = Integer 153"
    unfolding d l by (simp_all add: deltas_def positive_deltas_def negative_deltas_def int64_def)
  with g h l show ?thesis
    unfolding d by (auto simp: deltas_def)
qed

text \<open>
  A fresh account adjusted by +10 and by -3: the deltas sum to 7, the balance is 12.
\<close>

theorem fresh_balance_exceeds_deltas:
  "deltas (snd (replay (committed init_db (add_user init_db 3 (Some ''cy'') None ''9.5'')) 3
          [Admin_adjustment 10, Admin_adjustment (- 3)])) = [10, - 3]
   \<and> positive_deltas [10, - 3] + negative_deltas [10, - 3] = 7
   \<and> map_option credits
        (get_user (fst (replay (committed init_db (add_user init_db 3 (Some ''cy'') None ''9.5'')) 3
          [Admin_adjustment 10, Admin_adjustment (- 3)])) 3) = Some (Integer 12)
   \<and> map_option total_earned
        (get_user (fst (replay (committed init_db (add_user init_db 3 (Some ''cy'') None ''9.5'')) 3
          [Admin_adjustment 10, Admin_adjustment (- 3)])) 3) = Some (Integer 10)"
  by (simp add: init_db_def deltas_def positive_deltas_def negative_deltas_def operation_defs)

text \<open>
  C6. Once the \<^verbatim>\<open>is_active\<close> flag of a code is 0, after any sequence of operations in
  which \<^verbatim>\<open>create_redeem_code\<close> is not called for that code, the code's row is either
  deleted or still not active, and a redeem of the code by any account changes nothing
  and never succeeds: it returns \<^verbatim>\<open>"already_claimed"\<close> for an account with a log row for
  the code, otherwise \<^verbatim>\<open>"invalid"\<close> when the row is deleted and \<^verbatim>\<open>"inactive"\<close> when
  it is not.
\<close>

theorem deactivated_until_created_again:
  assumes "deactivated db c" and "list_all (\<lambda>op. \<not> creates c op) ops"
  shows "(case get_code (run db ops) c of None \<Rightarrow> True | Some r \<Rightarrow> \<not> is_active r)
    \<and> redeem_code_db (run db ops) now uid c =
        (run db ops,
         if get_log (run db ops) uid c \<noteq> None then Already_claimed
         else if get_code (run db ops) c = None then Invalid
         else Inactive)"
proof -
  from assms(1) have "retired db c"
    by (auto simp: retired_def deactivated_def split: option.splits)
  from retired_run [OF this assms(2)] redeem_retired show ?thesis
    by (simp add: retired_def)
qed

theorem deactivated_until_created_again_witness:
  "deactivated (deactivate_code flash_claimed_db ''FLASH100'') ''FLASH100''
   \<and> list_all (\<lambda>op. \<not> creates ''FLASH100'' op)
        [(70000000, Redeem_code_db 2 ''FLASH100''), (80000000, Update_credits 2 10),
         (90000000, Create_redeem_code ''NEW50'' 50 3 None), (95000000, Deactivate_code ''NEW50'')]
   \<and> redeem_code_db
        (run (deactivate_code flash_claimed_db ''FLASH100'')
          [(70000000, Redeem_code_db 2 ''FLASH100''), (80000000, Update_credits 2 10),
           (90000000, Create_redeem_code ''NEW50'' 50 3 None), (95000000, Deactivate_code ''NEW50'')])
        99000000 2 ''FLASH100''
      = (run (deactivate_code flash_claimed_db ''FLASH100'')
          [(70000000, Redeem_code_db 2 ''FLASH100''), (80000000, Update_credits 2 10),
           (90000000, Create_redeem_code ''NEW50'' 50 3 None), (95000000, Deactivate_code ''NEW50'')],
         Inactive)"
proof -
  let ?db = "deactivate_code flash_claimed_db ''FLASH100''"
  let ?ops = "[(70000000, Redeem_code_db 2 ''FLASH100''), (80000000, Update_credits 2 10),
         (90000000, Create_redeem_code ''NEW50'' 50 3 None), (95000000, Deactivate_code ''NEW50'')]"
  have d: "deactivated ?db ''FLASH100''"
    unfolding flash_claimed_db_eq by (simp add: deactivated_def get_code_def deactivate_code_def)
  have n: "list_all (\<lambda>op. \<not> creates ''FLASH100'' op) ?ops" by simp
  have l: "get_log (run ?db ?ops) 2 ''FLASH100'' = None"
    unfolding flash_claimed_db_eq by (simp add: run_def operation_defs)
  have g: "get_code (run ?db ?ops) ''FLASH100'' \<noteq> None"
    unfolding flash_claimed_db_eq by (simp add: run_def operation_defs)
  from deactivated_until_created_again [OF d n, of 99000000 2] d n l g
  show ?thesis by simp
qed

text \<open>
  \<^verbatim>\<open>create_redeem_code\<close> for the identifier of a deactivated code replaces the row by an
  active one, and the next redeem succeeds.
\<close>

theorem create_again_reactivates:
  "deactivated (run init_db [(0, Create_redeem_code ''FLASH100'' 100 1 None),
                             (10, Deactivate_code ''FLASH100'')]) ''FLASH100''
   \<and> snd (redeem_code_db
            (run init_db [(0, Create_redeem_code ''FLASH100'' 100 1 None),
                          (10, Deactivate_code ''FLASH100''),
                          (20, Create_redeem_code ''FLASH100'' 100 1 None)])
            30 1 ''FLASH100'') = Success 100"
  by (simp add: run_def init_db_def deactivated_def operation_defs)




text \<open>
  C8. \<^verbatim>\<open>update_credits\<close> (adjustBalance) with an id and a delta within the signed 64-bit
  range, on an existing account whose balance plus the delta stays within that range,
  changes the balance by exactly the delta; a positive delta is also added to
  \<open>total_earned\<close> (totalGranted, when that sum stays within the range), a delta that is
  zero or negative leaves \<open>total_earned\<close> as it was, so \<open>total_earned\<close> never decreases;
  every other column of the row is kept. An id or a delta outside the range raises
  \<^verbatim>\<open>OverflowError\<close> and nothing is written; a balance that leaves the range is no longer
  the integer sum.
\<close>

theorem update_credits_adjusts_balance:
  "(\<not> int64 delta \<or> \<not> int64 uid \<longrightarrow> update_credits db uid delta = Inl OverflowError)
   \<and> (int64 delta \<and> int64 uid \<and> get_user db uid = Some u
        \<and> credits u = Integer b \<and> int64 (b + delta)
        \<and> total_earned u = Integer e \<and> (0 < delta \<longrightarrow> int64 (e + delta)) \<longrightarrow>
       (\<exists>db1 u1. update_credits db uid delta = Inr db1 \<and> get_user db1 uid = Some u1
           \<and> credits u1 = Integer (b + delta)
           \<and> total_earned u1 = Integer (if 0 < delta then e + delta else e)
           \<and> e \<le> (if 0 < delta then e + delta else e)
           \<and> u1 = u\<lparr>credits := credits u1, total_earned := total_earned u1\<rparr>))
   \<and> (int64 delta \<and> int64 uid \<and> get_user db uid = Some u
        \<and> credits u = Integer b \<and> \<not> int64 (b + delta) \<longrightarrow>
       (\<exists>db1. update_credits db uid delta = Inr db1
           \<and> map_option credits (get_user db1 uid) = Some Inexact))"
proof (intro conjI impI)
  assume "\<not> int64 delta \<or> \<not> int64 uid"
  then show "update_credits db uid delta = Inl OverflowError" by (rule update_credits_raises)
next
  assume h: "int64 delta \<and> int64 uid \<and> get_user db uid = Some u
        \<and> credits u = Integer b \<and> int64 (b + delta)
        \<and> total_earned u = Integer e \<and> (0 < delta \<longrightarrow> int64 (e + delta))"
  then obtain db1 where upd: "update_credits db uid delta = Inr db1"
    using update_credits_returns by blast
  have id: "user_id u = uid" using h get_user_id by blast
  show "\<exists>db1 u1. update_credits db uid delta = Inr db1 \<and> get_user db1 uid = Some u1
           \<and> credits u1 = Integer (b + delta)
           \<and> total_earned u1 = Integer (if 0 < delta then e + delta else e)
           \<and> e \<le> (if 0 < delta then e + delta else e)
           \<and> u1 = u\<lparr>credits := credits u1, total_earned := total_earned u1\<rparr>"
    using get_user_update_credits [OF upd, of uid] upd h id by auto
next
  assume h: "int64 delta \<and> int64 uid \<and> get_user db uid = Some u
        \<and> credits u = Integer b \<and> \<not> int64 (b + delta)"
  then obtain db1 where upd: "update_credits db uid delta = Inr db1"
    using update_credits_returns by blast
  have id: "user_id u = uid" using h get_user_id by blast
  show "\<exists>db1. update_credits db uid delta = Inr db1
           \<and> map_option credits (get_user db1 uid) = Some Inexact"
    using get_user_update_credits [OF upd, of uid] upd h id by auto
qed

theorem update_credits_adjusts_balance_witness:
  "int64 (- 2) \<and> int64 1
   \<and> map_option credits (get_user flash_db 1) = Some (Integer 5) \<and> int64 (5 + - 2)
   \<and> map_option total_earned (get_user flash_db 1) = Some (Integer 0)
   \<and> (\<exists>db1. update_credits flash_db 1 (- 2) = Inr db1
         \<and> map_option credits (get_user db1 1) = Some (Integer 3)
         \<and> map_option total_earned (get_user db1 1) = Some (Integer 0))
   \<and> update_credits flash_db 1 9223372036854775808 = Inl OverflowError"
proof -
  let ?u = "\<lparr>user_id = 1, username = Some ''ann'', credits = Integer 5, joined_date = ''0.0'',
           referrer_id = None, is_banned = 0, total_earned = Integer 0, last_active = ''0.0''\<rparr>"
  have g: "get_user flash_db 1 = Some ?u"
    unfolding flash_db_def by (simp add: get_user_def)
  have i: "int64 (- 2)" "int64 1" "int64 (5 + - 2)" "\<not> int64 9223372036854775808"
    by (simp_all add: int64_def)
  from update_credits_adjusts_balance [of "- 2" 1 flash_db ?u 5 0]
    update_credits_adjusts_balance [of 9223372036854775808 1 flash_db]
    g i
  show ?thesis by auto
qed

text \<open>
  A delta of 9223372036854775808, which \<^verbatim>\<open>/gift\<close> passes on: the call raises and the
  balance of account 1 stays 5. A delta of 9223372036854775807: the call returns and the
  balance is not 5 plus the delta.
\<close>

theorem update_credits_beyond_range:
  "map_option credits (get_user flash_db 1) = Some (Integer 5)
   \<and> update_credits flash_db 1 9223372036854775808 = Inl OverflowError
   \<and> map_option credits
        (get_user (committed flash_db (update_credits flash_db 1 9223372036854775808)) 1)
        = Some (Integer 5)
   \<and> map_option credits
        (get_user (committed flash_db (update_credits flash_db 1 9223372036854775807)) 1)
        = Some Inexact"
  unfolding flash_db_def
  by (simp add: operation_defs)



text \<open>
  C10. For an id with no row in \<^verbatim>\<open>users\<close>, when the id and the referrer (if there is
  one) are within the signed 64-bit range, \<^verbatim>\<open>add_user\<close> creates the account with
  exactly 5 credits and \<open>total_earned\<close> 0, so the balance of a fresh account exceeds its
  recorded grants by 5. With an id or, for an id that has no row, a referrer outside the
  range it raises \<^verbatim>\<open>OverflowError\<close> and creates no account.
\<close>

theorem add_user_signup_grant:
  "(get_user db uid = None \<and> int64 uid \<and> int64_opt referrer \<longrightarrow>
      (\<exists>db1. add_user db uid uname referrer current_time = Inr db1
         \<and> get_user db1 uid =
              Some \<lparr>user_id = uid, username = uname, credits = Integer 5,
                    joined_date = current_time, referrer_id = referrer, is_banned = 0,
                    total_earned = Integer 0, last_active = current_time\<rparr>
         \<and> users db1 = users db @
              [\<lparr>user_id = uid, username = uname, credits = Integer 5,
                 joined_date = current_time, referrer_id = referrer, is_banned = 0,
                 total_earned = Integer 0, last_active = current_time\<rparr>]))
   \<and> (\<not> int64 uid \<or> get_user db uid = None \<and> \<not> int64_opt referrer \<longrightarrow>
        add_user db uid uname referrer current_time = Inl OverflowError)"
proof (intro conjI impI)
  assume h: "get_user db uid = None \<and> int64 uid \<and> int64_opt referrer"
  then obtain db1 where add: "add_user db uid uname referrer current_time = Inr db1"
    using add_user_new by blast
  have "users db1 = users db @
              [\<lparr>user_id = uid, username = uname, credits = Integer 5,
                 joined_date = current_time, referrer_id = referrer, is_banned = 0,
                 total_earned = Integer 0, last_active = current_time\<rparr>]"
    using add h add_user_new [of db uid referrer uname current_time] by auto
  then show "\<exists>db1. add_user db uid uname referrer current_time = Inr db1
         \<and> get_user db1 uid =
              Some \<lparr>user_id = uid, username = uname, credits = Integer 5,
                    joined_date = current_time, referrer_id = referrer, is_banned = 0,
                    total_earned = Integer 0, last_active = current_time\<rparr>
         \<and> users db1 = users db @
              [\<lparr>user_id = uid, username = uname, credits = Integer 5,
                 joined_date = current_time, referrer_id = referrer, is_banned = 0,
                 total_earned = Integer 0, last_active = current_time\<rparr>]"
    using add get_user_add_user_new [OF _ add] h by auto
next
  assume "\<not> int64 uid \<or> get_user db uid = None \<and> \<not> int64_opt referrer"
  then show "add_user db uid uname referrer current_time = Inl OverflowError"
    by (auto simp: add_user_def get_user_def)
qed

theorem add_user_signup_grant_witness:
  "get_user flash_db 7 = None \<and> int64 7 \<and> int64_opt (Some 1)
   \<and> (\<exists>db1. add_user flash_db 7 (Some ''dan'') (Some 1) ''12.5'' = Inr db1
         \<and> get_user db1 7 =
             Some \<lparr>user_id = 7, username = Some ''dan'', credits = Integer 5,
                   joined_date = ''12.5'', referrer_id = Some 1, is_banned = 0,
                   total_earned = Integer 0, last_active = ''12.5''\<rparr>)
   \<and> \<not> int64_opt (Some 100000000000000000000)
   \<and> add_user flash_db 7 (Some ''dan'') (Some 100000000000000000000) ''12.5''
        = Inl OverflowError"
proof -
  have h: "get_user flash_db 7 = None"
    unfolding flash_db_def by (simp add: get_user_def)
  have i: "int64 7" "int64_opt (Some 1)" "\<not> int64_opt (Some 100000000000000000000)"
    by (simp_all add: int64_def int64_opt_def)
  from add_user_signup_grant [of flash_db 7 "Some 1" "Some ''dan''" "''12.5''"]
    add_user_signup_grant [of flash_db 7 "Some 100000000000000000000" "Some ''dan''" "''12.5''"]
    h i
  show ?thesis by auto
qed

text \<open>
  \<^verbatim>\<open>/start ref_100000000000000000000\<close> from a sender 7 who has no account: the
  referrer cannot be bound, \<^verbatim>\<open>add_user\<close> raises and account 7 is not created.
\<close>

theorem add_user_referrer_beyond_range:
  "get_user flash_db 7 = None
   \<and> add_user flash_db 7 (Some ''dan'') (Some 100000000000000000000) ''12.5'' = Inl OverflowError
   \<and> start_command flash_db 7 (Some ''dan'') (Some 100000000000000000000) ''12.5'' True ''t1''
        = Inl OverflowError
   \<and> get_user (committed flash_db
        (add_user flash_db 7 (Some ''dan'') (Some 100000000000000000000) ''12.5'')) 7 = None"
  unfolding flash_db_def
  by (simp add: start_command_def is_user_banned_def operation_defs)

end
